theory Spec2Isabelle
  imports Main "HOL-Library.Multiset"
begin

section \<open>Strings\<close>

text \<open>
  A Python \<open>str\<close> is modelled as a \<open>string\<close> whose characters are the code points
  below 256. On these, \<open>str.strip()\<close> removes the characters for which \<open>str.isspace()\<close>
  holds (9 to 13, 28 to 32, 133 and 160), and the regular expression class \<open>\d\<close> is
  the ten digits \<open>0\<close> to \<open>9\<close>.
\<close>

definition isspace :: "char \<Rightarrow> bool" where
  "isspace c =
     (let n = (of_char c :: nat)
      in (9 \<le> n \<and> n \<le> 13) \<or> (28 \<le> n \<and> n \<le> 32) \<or> n = 133 \<or> n = 160)"

definition isdigit :: "char \<Rightarrow> bool" where
  "isdigit c = (let n = (of_char c :: nat) in 48 \<le> n \<and> n \<le> 57)"

definition strip :: "string \<Rightarrow> string" where
  "strip s = rev (dropWhile isspace (rev (dropWhile isspace s)))"

text \<open>\<open>startswith sub s\<close> is \<open>s.startswith(sub)\<close>; \<open>str_contains sub s\<close> is \<open>sub in s\<close>.\<close>

fun startswith :: "string \<Rightarrow> string \<Rightarrow> bool" where
  "startswith [] s = True"
| "startswith (a # sub) [] = False"
| "startswith (a # sub) (c # s) = (a = c \<and> startswith sub s)"

fun str_contains :: "string \<Rightarrow> string \<Rightarrow> bool" where
  "str_contains sub [] = (sub = [])"
| "str_contains sub (c # s) = (startswith sub (c # s) \<or> str_contains sub s)"

text \<open>
  \<open>int(ds)\<close> on a string of decimal digits. Python integers are unbounded; the
  interpreter's configurable cap on the length of a digit string is not modelled.
\<close>

definition int_of_digits :: "string \<Rightarrow> int" where
  "int_of_digits ds = foldl (\<lambda>a c. 10 * a + (int (of_char c) - 48)) 0 ds"

text \<open>
  \<open>re.search(r'\((\d+)\)', text)\<close>: the leftmost position at which an opening
  parenthesis, one or more digits and a closing parenthesis follow each other. The
  digits are matched greedily, so at a given opening parenthesis the match succeeds
  exactly when the longest run of digits after it is not empty and is followed by the
  closing parenthesis. The result is \<open>group(1)\<close> of the match, \<open>None\<close> when no position
  matches.
\<close>

fun re_search :: "string \<Rightarrow> string option" where
  "re_search [] = None"
| "re_search (c # s) =
     (if c = CHR ''(''
      then (case takeWhile isdigit s of
              [] \<Rightarrow> re_search s
            | d # ds \<Rightarrow>
                (case dropWhile isdigit s of
                   [] \<Rightarrow> re_search s
                 | e # _ \<Rightarrow> if e = CHR '')'' then Some (d # ds) else re_search s))
      else re_search s)"

section \<open>The parsed document\<close>

text \<open>
  \<open>BeautifulSoup(text, 'html.parser')\<close> gives a tree. A node is a string of text, a
  string that \<open>get_text\<close> leaves out (a comment, a declaration, the content of a script),
  or a tag with its name, the list of its classes (\<open>class\<close> is a multi-valued attribute),
  its \<open>href\<close> attribute when it has one, and its children. The document itself is the
  list of its top-level nodes.
\<close>

datatype node =
    NavigableString string
  | Comment string
  | Tag (name: string) (classes: "string list") (href: "string option") (contents: "node list")

text \<open>\<open>tag.descendants\<close>: every node below, in document order.\<close>

fun descendants :: "node \<Rightarrow> node list"
  and descendants_list :: "node list \<Rightarrow> node list" where
  "descendants (NavigableString s) = []"
| "descendants (Comment s) = []"
| "descendants (Tag n cl h cs) = descendants_list cs"
| "descendants_list [] = []"
| "descendants_list (c # cs) = c # descendants c @ descendants_list cs"

text \<open>\<open>find_all\<close> keeps the matching descendants, in document order; \<open>find\<close> is its first.\<close>

definition find_all :: "(node \<Rightarrow> bool) \<Rightarrow> node list \<Rightarrow> node list" where
  "find_all m ns = filter m (descendants_list ns)"

definition find_first :: "(node \<Rightarrow> bool) \<Rightarrow> node list \<Rightarrow> node option" where
  "find_first m ns = (case find_all m ns of [] \<Rightarrow> None | x # _ \<Rightarrow> Some x)"

fun is_tag :: "string \<Rightarrow> node \<Rightarrow> bool" where
  "is_tag nm (Tag n cl h cs) = (n = nm)"
| "is_tag nm _ = False"

fun is_tag_class :: "string \<Rightarrow> string \<Rightarrow> node \<Rightarrow> bool" where
  "is_tag_class nm c (Tag n cl h cs) = (n = nm \<and> c \<in> set cl)"
| "is_tag_class nm c _ = False"

fun is_tag_href :: "string \<Rightarrow> node \<Rightarrow> bool" where
  "is_tag_href nm (Tag n cl h cs) = (n = nm \<and> h \<noteq> None)"
| "is_tag_href nm _ = False"

fun children :: "node \<Rightarrow> node list" where
  "children (Tag n cl h cs) = cs"
| "children _ = []"

text \<open>
  \<open>get_text(strip=True)\<close>: the text strings below the tag, each stripped, joined with
  nothing between them (a string that strips to nothing contributes nothing).
\<close>

fun text_of :: "node \<Rightarrow> string" where
  "text_of (NavigableString s) = strip s"
| "text_of _ = []"

definition get_text :: "node \<Rightarrow> string" where
  "get_text t = concat (map text_of (descendants t))"

section \<open>The listing page: lines 92 to 107 of \<open>main\<close>\<close>

type_synonym item_tuple = "string \<times> string"

definition wiki_origin :: string where
  "wiki_origin = ''https://minecraft.wiki''"

text \<open>
  The inner loop over the links of one \<open>div\<close>. The links come from
  \<open>find_all('a', href=True)\<close>, so each of them is a tag that carries \<open>href\<close>; on any
  other node \<open>link['href']\<close> would have nothing to read, and the loop has no tuple to add.
\<close>

fun link_loop :: "node list \<Rightarrow> item_tuple list" where
  "link_loop [] = []"
| "link_loop (link # links) =
     (let item_name = get_text link
      in if item_name = [] then link_loop links
         else if item_name = ''JE'' then link_loop links
         else if item_name = ''BE'' then link_loop links
         else (case link of
                 Tag n cl (Some h) cs \<Rightarrow> (item_name, wiki_origin @ h) # link_loop links
               | _ \<Rightarrow> link_loop links))"

fun div_loop :: "node list \<Rightarrow> item_tuple list" where
  "div_loop [] = []"
| "div_loop (d # div_cols) =
     link_loop (find_all (is_tag_href ''a'') (children d)) @ div_loop div_cols"

definition extract_item_tuples :: "node list \<Rightarrow> item_tuple list" where
  "extract_item_tuples soup = div_loop (find_all (is_tag_class ''div'' ''div-col'') soup)"

section \<open>The detail page: \<open>get_stackable_info\<close>\<close>

datatype py_exception = Timeout | ConnectionError | ParserRejectedMarkup | OtherException string

datatype http_result = Raises py_exception | Response nat string

text \<open>
  The world outside the program: what a GET of a URL gives (a response with its status
  code and text, or an exception of the HTTP client after its retries), and what the HTML
  parser gives on a text (a document, or an exception).
\<close>

record env =
  http_get :: "string \<Rightarrow> http_result"
  html_parser :: "string \<Rightarrow> py_exception + node list"

datatype log_line =
    Fetching_item_list
  | Listing_failed
  | Total_items_found nat
  | Fetching_in_parallel
  | Failed_to_retrieve string
  | Exception_for string py_exception
  | Interrupt_received
  | Progress_saved nat
  | Finished nat
  | Total_time

text \<open>Lines 59 to 64: the stack size read from the text of the value cell.\<close>

definition stack_of_text :: "string \<Rightarrow> int" where
  "stack_of_text text =
     (if str_contains ''Yes'' text
      then (case re_search text of Some ds \<Rightarrow> int_of_digits ds | None \<Rightarrow> 64)
      else 1)"

text \<open>
  Lines 54 to 64: the loop over the rows of one table. \<open>Some v\<close> is \<open>return v\<close>;
  \<open>None\<close> is the loop running to its end. A tag is true in a condition whatever its
  contents, so \<open>if header\<close> and \<open>if value_cell\<close> test that \<open>find\<close> found a tag.
\<close>

fun row_loop :: "node list \<Rightarrow> int option" where
  "row_loop [] = None"
| "row_loop (row # rows) =
     (case find_first (is_tag ''th'') (children row) of
        None \<Rightarrow> row_loop rows
      | Some header \<Rightarrow>
          if get_text header = ''Stackable''
          then (case find_first (is_tag ''td'') (children row) of
                  None \<Rightarrow> row_loop rows
                | Some value_cell \<Rightarrow> Some (stack_of_text (get_text value_cell)))
          else row_loop rows)"

text \<open>Lines 53 to 65: the loop over the tables, and the \<open>return 1\<close> after it.\<close>

fun table_loop :: "node list \<Rightarrow> int" where
  "table_loop [] = 1"
| "table_loop (table # infobox_tables) =
     (case row_loop (find_all (is_tag ''tr'') (children table)) of
        Some v \<Rightarrow> v
      | None \<Rightarrow> table_loop infobox_tables)"

text \<open>
  The body of the \<open>try\<close>: an exception raised by the GET or by the parser leaves it
  (\<open>Inl\<close>); otherwise it returns what it printed and the stack size.
\<close>

definition get_stackable_info_try :: "env \<Rightarrow> string \<Rightarrow> py_exception + (log_line list \<times> int)" where
  "get_stackable_info_try e item_url =
     (case http_get e item_url of
        Raises x \<Rightarrow> Inl x
      | Response status_code text \<Rightarrow>
          if status_code \<noteq> 200 then Inr ([Failed_to_retrieve item_url], 1)
          else (case html_parser e text of
                  Inl x \<Rightarrow> Inl x
                | Inr soup \<Rightarrow>
                    Inr ([], table_loop (find_all (is_tag_class ''table'' ''infobox-rows'') soup))))"

definition get_stackable_info :: "env \<Rightarrow> string \<Rightarrow> log_line list \<times> int" where
  "get_stackable_info e item_url =
     (case get_stackable_info_try e item_url of
        Inr r \<Rightarrow> r
      | Inl x \<Rightarrow> ([Exception_for item_url x], 1))"

section \<open>The result store and the worker pool\<close>

record item_entry =
  item :: string
  stack :: int

text \<open>
  \<open>fetch_item_data\<close> without its append: what the attempt prints and the entry it
  builds. The append to \<open>items_data\<close>, under the lock, is the step \<open>Complete\<close> below.
\<close>

definition fetch_item_data :: "env \<Rightarrow> item_tuple \<Rightarrow> log_line list \<times> item_entry" where
  "fetch_item_data e item_tuple =
     (case item_tuple of (item_name, item_url) \<Rightarrow>
        (case get_stackable_info e item_url of (printed, stack_size) \<Rightarrow>
           (printed, \<lparr>item = item_name, stack = stack_size\<rparr>)))"

text \<open>
  The state of the process while the pool works: the futures not yet started, in the
  order \<open>executor.map\<close> submitted them; the attempts in flight, at most \<open>max_workers\<close>;
  the global list \<open>items_data\<close>; what has been printed; whether \<open>KeyboardInterrupt\<close> has
  reached the main thread.
\<close>

record pool =
  queue :: "item_tuple list"
  running :: "item_tuple list"
  items_data :: "item_entry list"
  console :: "log_line list"
  interrupted :: bool

definition max_workers :: nat where
  "max_workers = 3"

text \<open>
  The threads interleave; a schedule, a list of events, fixes one interleaving.
  \<^item> \<open>Take\<close>: a free worker takes the next future from the queue and starts its attempt.
  \<^item> \<open>Complete i\<close>: the attempt at position \<open>i\<close> among those in flight returns; its entry
    has been appended to \<open>items_data\<close> under the lock, exactly once.
  \<^item> \<open>Ctrl_C\<close>: \<open>KeyboardInterrupt\<close> reaches the main thread while it waits for a result
    inside the iterator of \<open>executor.map\<close>. The iterator cancels every future that has
    not started. Leaving the \<open>with\<close> block then shuts the pool down and waits for its
    workers, so the attempts in flight still return, and append, before the handler
    runs \<open>save_data\<close>.
  An event that cannot happen in the current state (no free worker, nothing in the queue,
  no such attempt, the pool already drained or interrupted) leaves the state as it is.
\<close>

datatype event = Take | Complete nat | Ctrl_C

definition drained :: "pool \<Rightarrow> bool" where
  "drained p = (queue p = [] \<and> running p = [])"

fun pool_step :: "env \<Rightarrow> pool \<Rightarrow> event \<Rightarrow> pool" where
  "pool_step e p Take =
     (case queue p of
        [] \<Rightarrow> p
      | c # q \<Rightarrow>
          if length (running p) < max_workers
          then p\<lparr>queue := q, running := running p @ [c]\<rparr>
          else p)"
| "pool_step e p (Complete i) =
     (if i < length (running p)
      then (case fetch_item_data e (running p ! i) of (printed, item_entry) \<Rightarrow>
              p\<lparr>running := take i (running p) @ drop (Suc i) (running p),
                items_data := items_data p @ [item_entry],
                console := console p @ printed\<rparr>)
      else p)"
| "pool_step e p Ctrl_C =
     (if interrupted p \<or> drained p then p
      else p\<lparr>queue := [], interrupted := True\<rparr>)"

text \<open>
  When the schedule says nothing more, the pool still runs until it is drained: here the
  attempt in flight returns before the next one starts.
\<close>

function drain :: "env \<Rightarrow> pool \<Rightarrow> pool" where
  "drain e p =
     (if running p \<noteq> [] then drain e (pool_step e p (Complete 0))
      else if queue p \<noteq> [] then drain e (pool_step e p Take)
      else p)"
  by pat_completeness auto
termination
  by (relation "measure (\<lambda>(e, p). 2 * length (queue p) + length (running p))")
     (auto simp: max_workers_def split: list.splits prod.splits)

declare drain.simps [simp del]

definition pool_init :: "item_tuple list \<Rightarrow> log_line list \<Rightarrow> pool" where
  "pool_init item_tuples printed =
     \<lparr>queue = item_tuples, running = [], items_data = [], console = printed,
      interrupted = False\<rparr>"

definition pool_run :: "env \<Rightarrow> event list \<Rightarrow> pool \<Rightarrow> pool" where
  "pool_run e schedule p = drain e (foldl (pool_step e) p schedule)"

section \<open>The driver: \<open>save_data\<close>, \<open>main\<close> and the script\<close>

datatype run_state = Aborted | Done | Interrupted | Uncaught py_exception

text \<open>
  What a run leaves behind: what it printed, the list \<open>items_data\<close>, the content of
  \<open>minecraft_items.json\<close> if the file was written (taken to be writable), and how
  \<open>main\<close> ended.
\<close>

record run =
  printed :: "log_line list"
  collected :: "item_entry list"
  output_file :: "item_entry list option"
  ended :: run_state

definition base_url :: string where
  "base_url = ''https://minecraft.wiki/w/Item#Lists_of_items''"

definition save_data :: "pool \<Rightarrow> log_line list \<times> item_entry list option" where
  "save_data p =
     (console p @ [Progress_saved (length (items_data p))], Some (items_data p))"

text \<open>
  Lines 92 to 111 and the submission of every tuple by \<open>executor.map\<close>: the state in
  which the pool starts.
\<close>

definition start_pool :: "node list \<Rightarrow> pool" where
  "start_pool soup =
     (let item_tuples = extract_item_tuples soup
      in pool_init item_tuples
           [Fetching_item_list, Total_items_found (length item_tuples), Fetching_in_parallel])"

definition main :: "env \<Rightarrow> event list \<Rightarrow> run" where
  "main e schedule =
     (case http_get e base_url of
        Raises x \<Rightarrow>
          \<lparr>printed = [Fetching_item_list], collected = [], output_file = None,
           ended = Uncaught x\<rparr>
      | Response status_code text \<Rightarrow>
          if status_code \<noteq> 200
          then \<lparr>printed = [Fetching_item_list, Listing_failed], collected = [],
                output_file = None, ended = Aborted\<rparr>
          else (case html_parser e text of
                  Inl x \<Rightarrow>
                    \<lparr>printed = [Fetching_item_list], collected = [], output_file = None,
                     ended = Uncaught x\<rparr>
                | Inr soup \<Rightarrow>
                    (let p = pool_run e schedule (start_pool soup)
                     in if interrupted p
                        then (case save_data (p\<lparr>console := console p @ [Interrupt_received]\<rparr>) of
                                (out, file) \<Rightarrow>
                                  \<lparr>printed = out, collected = items_data p, output_file = file,
                                   ended = Interrupted\<rparr>)
                        else (case save_data p of
                                (out, file) \<Rightarrow>
                                  \<lparr>printed = out @ [Finished (length (items_data p))],
                                   collected = items_data p, output_file = file,
                                   ended = Done\<rparr>))))"

text \<open>
  The script, lines 124 to 127: it runs \<open>main\<close> and prints the time. Its exit status is 0
  when \<open>main\<close> returns, whichever \<open>return\<close> it took, and 1 when an exception leaves it.
\<close>

definition script :: "env \<Rightarrow> event list \<Rightarrow> run \<times> nat" where
  "script e schedule =
     (let r = main e schedule
      in (case ended r of
            Uncaught x \<Rightarrow> (r, 1)
          | _ \<Rightarrow> (r\<lparr>printed := printed r @ [Total_time]\<rparr>, 0)))"

section \<open>The words of the specification\<close>

text \<open>
  A parenthesized integer: an opening parenthesis, a string of one or more digits, a
  closing parenthesis. \<open>paren_int_here ds s\<close>: the string \<open>s\<close> starts with the
  parenthesized integer whose digits are \<open>ds\<close>. \<open>paren_int_at text i ds\<close>: it stands at
  position \<open>i\<close> of \<open>text\<close>.
\<close>

definition paren_int_here :: "string \<Rightarrow> string \<Rightarrow> bool" where
  "paren_int_here ds s =
     (ds \<noteq> [] \<and> list_all isdigit ds \<and> startswith (''('' @ ds @ '')'') s)"

definition paren_int_at :: "string \<Rightarrow> nat \<Rightarrow> string \<Rightarrow> bool" where
  "paren_int_at text i ds = paren_int_here ds (drop i text)"

text \<open>
  The rows of the info tables, table after table, each table's rows in document order;
  the trimmed text of a row's header cell and of its value cell; a row that is a
  "Stackable" row with a value cell.
\<close>

definition table_rows :: "node list \<Rightarrow> node list" where
  "table_rows soup =
     concat (map (\<lambda>table. find_all (is_tag ''tr'') (children table))
               (find_all (is_tag_class ''table'' ''infobox-rows'') soup))"

definition header_text :: "node \<Rightarrow> string option" where
  "header_text row = map_option get_text (find_first (is_tag ''th'') (children row))"

definition value_text :: "node \<Rightarrow> string option" where
  "value_text row = map_option get_text (find_first (is_tag ''td'') (children row))"

definition stackable_row :: "node \<Rightarrow> bool" where
  "stackable_row row = (header_text row = Some ''Stackable'' \<and> value_text row \<noteq> None)"

definition stack_of_row :: "node \<Rightarrow> int" where
  "stack_of_row row = (case value_text row of Some text \<Rightarrow> stack_of_text text | None \<Rightarrow> 1)"

text \<open>
  The hyperlinks inside column-list regions, by one walk through the document in
  document order: \<open>inside\<close> says whether the walk is below a \<open>div\<close> of class
  \<open>div-col\<close>. A hyperlink is an \<open>a\<close> tag that carries \<open>href\<close>.
\<close>

fun region_links :: "bool \<Rightarrow> node \<Rightarrow> node list"
  and region_links_list :: "bool \<Rightarrow> node list \<Rightarrow> node list" where
  "region_links inside (NavigableString s) = []"
| "region_links inside (Comment s) = []"
| "region_links inside (Tag n cl h cs) =
     (if inside \<and> n = ''a'' \<and> h \<noteq> None then [Tag n cl h cs] else [])
     @ region_links_list (inside \<or> (n = ''div'' \<and> ''div-col'' \<in> set cl)) cs"
| "region_links_list inside [] = []"
| "region_links_list inside (c # cs) = region_links inside c @ region_links_list inside cs"

fun candidate_of_link :: "node \<Rightarrow> item_tuple list" where
  "candidate_of_link (Tag n cl (Some h) cs) =
     (if get_text (Tag n cl (Some h) cs) \<in> {[], ''JE'', ''BE''} then []
      else [(get_text (Tag n cl (Some h) cs), wiki_origin @ h)])"
| "candidate_of_link _ = []"

definition listed_candidates :: "node list \<Rightarrow> item_tuple list" where
  "listed_candidates soup = concat (map candidate_of_link (region_links_list False soup))"

definition no_nested_regions :: "node list \<Rightarrow> bool" where
  "no_nested_regions soup =
     list_all (\<lambda>d. find_all (is_tag_class ''div'' ''div-col'') (children d) = [])
       (find_all (is_tag_class ''div'' ''div-col'') soup)"

text \<open>
  A failed attempt on a detail page: the GET raises (a timeout is one such exception),
  the status is not 200, or the parser raises.
\<close>

definition detail_fetch_fails :: "env \<Rightarrow> string \<Rightarrow> bool" where
  "detail_fetch_fails e item_url =
     (case http_get e item_url of
        Raises x \<Rightarrow> True
      | Response status_code text \<Rightarrow>
          status_code \<noteq> 200 \<or> (case html_parser e text of Inl x \<Rightarrow> True | Inr soup \<Rightarrow> False))"

text \<open>
  The entry that the attempt on a candidate builds, and the entries a pool accounts for:
  those stored, those of the attempts in flight, those of the futures still queued.
\<close>

definition entry_of :: "env \<Rightarrow> item_tuple \<Rightarrow> item_entry" where
  "entry_of e c = snd (fetch_item_data e c)"

definition accounted :: "env \<Rightarrow> pool \<Rightarrow> item_entry multiset" where
  "accounted e p =
     mset (items_data p) + mset (map (entry_of e) (running p)) + mset (map (entry_of e) (queue p))"

section \<open>Example pages and worlds\<close>

text \<open>A detail page whose only info table has one "Stackable" row with the given value.\<close>

definition stackable_page :: "string \<Rightarrow> node list" where
  "stackable_page text =
     [Tag ''table'' [''infobox-rows''] None
        [Tag ''tr'' [] None
           [Tag ''th'' [] None [NavigableString ''Stackable''],
            Tag ''td'' [] None [NavigableString text]]]]"

text \<open>A detail page whose first "Stackable" row has no value cell.\<close>

definition two_row_page :: "node list" where
  "two_row_page =
     [Tag ''table'' [''infobox-rows''] None
        [Tag ''tr'' [] None [Tag ''th'' [] None [NavigableString ''Stackable'']],
         Tag ''tr'' [] None
           [Tag ''th'' [] None [NavigableString ''Stackable''],
            Tag ''td'' [] None [NavigableString ''Yes (16)'']]]]"

text \<open>A detail page with an info table and no "Stackable" row.\<close>

definition plain_page :: "node list" where
  "plain_page =
     [Tag ''table'' [''infobox-rows''] None
        [Tag ''tr'' [] None
           [Tag ''th'' [] None [NavigableString ''Renewable''],
            Tag ''td'' [] None [NavigableString ''Yes'']]]]"

definition listing_page :: "node list" where
  "listing_page =
     [Tag ''div'' [''div-col''] None
        [Tag ''a'' [] (Some ''/w/Stick'') [NavigableString ''Stick''],
         Tag ''a'' [] (Some ''/w/Java_Edition'') [NavigableString ''JE''],
         Tag ''a'' [] (Some ''/w/Ink_Sac'') [NavigableString ''Ink Sac'']]]"

text \<open>A listing page whose links read "", "JE", "BE" and "Diamond Sword".\<close>

definition marker_listing_page :: "node list" where
  "marker_listing_page =
     [Tag ''div'' [''div-col''] None
        [Tag ''a'' [] (Some ''/w/Empty'') [],
         Tag ''a'' [] (Some ''/w/Java_Edition'') [NavigableString ''JE''],
         Tag ''a'' [] (Some ''/w/Bedrock_Edition'') [NavigableString ''BE''],
         Tag ''a'' [] (Some ''/w/Diamond_Sword'') [NavigableString ''Diamond Sword'']]]"

text \<open>A listing page with one column list inside another.\<close>

definition nested_listing_page :: "node list" where
  "nested_listing_page =
     [Tag ''div'' [''div-col''] None
        [Tag ''div'' [''div-col''] None
           [Tag ''a'' [] (Some ''/w/Stick'') [NavigableString ''Stick'']]]]"

text \<open>
  A world: the listing URL answers with the given status and listing page; the page of
  "Ink Sac" times out; every other detail page is the given one.
\<close>

definition test_env :: "nat \<Rightarrow> node list \<Rightarrow> node list \<Rightarrow> env" where
  "test_env listing_status listing detail =
     \<lparr>http_get = (\<lambda>u. if u = base_url then Response listing_status ''listing''
                      else if u = ''https://minecraft.wiki/w/Ink_Sac'' then Raises Timeout
                      else Response 200 ''detail''),
      html_parser = (\<lambda>t. if t = ''listing'' then Inr listing else Inr detail)\<rparr>"

section \<open>Properties\<close>

subsection \<open>Strings and the regular expression\<close>

lemma startswith_iff: "startswith sub s \<longleftrightarrow> (\<exists>post. s = sub @ post)"
  by (induction sub s rule: startswith.induct) auto

lemma str_contains_iff: "str_contains sub s \<longleftrightarrow> (\<exists>pre post. s = pre @ sub @ post)"
proof (induction s)
  case Nil
  then show ?case by auto
next
  case (Cons c s)
  show ?case
  proof
    assume "str_contains sub (c # s)"
    then consider "startswith sub (c # s)" | "str_contains sub s" by auto
    then show "\<exists>pre post. c # s = pre @ sub @ post"
    proof cases
      case 1
      then obtain post where "c # s = sub @ post" by (auto simp: startswith_iff)
      then have "c # s = [] @ sub @ post" by simp
      then show ?thesis by blast
    next
      case 2
      then obtain pre post where "s = pre @ sub @ post" using Cons.IH by blast
      then have "c # s = (c # pre) @ sub @ post" by simp
      then show ?thesis by blast
    qed
  next
    assume "\<exists>pre post. c # s = pre @ sub @ post"
    then obtain pre post where eq: "c # s = pre @ sub @ post" by blast
    show "str_contains sub (c # s)"
    proof (cases pre)
      case Nil
      then have "startswith sub (c # s)" using eq by (auto simp: startswith_iff)
      then show ?thesis by simp
    next
      case (Cons a pre')
      then have "s = pre' @ sub @ post" using eq by simp
      then have "str_contains sub s" using Cons.IH by blast
      then show ?thesis by simp
    qed
  qed
qed

lemma isdigit_paren [simp]: "\<not> isdigit CHR '')''"
  by (simp add: isdigit_def)



lemma paren_int_here_Nil [simp]: "\<not> paren_int_here ds []"
  by (simp add: paren_int_here_def)






lemma paren_int_at_Nil [simp]: "\<not> paren_int_at [] i ds"
  by (simp add: paren_int_at_def)








subsection \<open>The scan of the info tables\<close>

lemma find_app:
  "List.find P (xs @ ys) = (case List.find P xs of None \<Rightarrow> List.find P ys | Some x \<Rightarrow> Some x)"
  by (induction xs) auto

lemma row_loop_find: "row_loop rows = map_option stack_of_row (List.find stackable_row rows)"
  by (induction rows)
     (auto simp: stackable_row_def header_text_def value_text_def stack_of_row_def
           split: option.splits)

lemma table_loop_find:
  "table_loop tables =
     (case List.find stackable_row
             (concat (map (\<lambda>table. find_all (is_tag ''tr'') (children table)) tables)) of
        None \<Rightarrow> 1
      | Some row \<Rightarrow> stack_of_row row)"
  by (induction tables) (auto simp: row_loop_find find_app split: option.splits)

lemma get_stackable_info_200:
  assumes "http_get e item_url = Response 200 body"
    and "html_parser e body = Inr soup"
  shows "get_stackable_info e item_url =
           ([], case List.find stackable_row (table_rows soup) of
                  None \<Rightarrow> 1
                | Some row \<Rightarrow> stack_of_row row)"
  using assms
  by (simp add: get_stackable_info_def get_stackable_info_try_def table_loop_find table_rows_def)


subsection \<open>The stack size read from a detail page\<close>

lemmas page_simps = test_env_def base_url_def stackable_page_def two_row_page_def plain_page_def
  table_rows_def find_all_def find_first_def stackable_row_def header_text_def value_text_def
  get_text_def strip_def isspace_def

lemma stick_get:
  "http_get (test_env 200 listing detail) ''https://minecraft.wiki/w/Stick''
     = Response 200 ''detail''"
  by (simp add: test_env_def base_url_def)

lemma detail_parse: "html_parser (test_env 200 listing detail) ''detail'' = Inr detail"
  by (simp add: test_env_def)

lemma stackable_page_value:
  "value_text (Tag ''tr'' [] None
                 [Tag ''th'' [] None [NavigableString ''Stackable''],
                  Tag ''td'' [] None [NavigableString text]]) = Some (strip text)"
  by (simp add: value_text_def find_first_def find_all_def get_text_def)

lemma stackable_page_find:
  "List.find stackable_row (table_rows (stackable_page text))
     = Some (Tag ''tr'' [] None
               [Tag ''th'' [] None [NavigableString ''Stackable''],
                Tag ''td'' [] None [NavigableString text]])"
  by (simp add: page_simps)



text \<open>
  C7. On a detail page fetched with status 200 in which no row of an info table has a
  header cell whose trimmed text is "Stackable", \<open>get_stackable_info\<close> returns 1.
\<close>

theorem missing_row_default:
  assumes "http_get e item_url = Response 200 body"
    and "html_parser e body = Inr soup"
    and "\<forall>row\<in>set (table_rows soup). header_text row \<noteq> Some ''Stackable''"
  shows "snd (get_stackable_info e item_url) = 1"
proof -
  have "\<not> (\<exists>row. row \<in> set (table_rows soup) \<and> stackable_row row)"
    using assms(3) by (auto simp: stackable_row_def)
  then have "List.find stackable_row (table_rows soup) = None" by (rule find_None_iff [THEN iffD2])
  then show ?thesis using assms(1,2) by (simp add: get_stackable_info_200)
qed

lemma plain_page_rows:
  "table_rows plain_page =
     [Tag ''tr'' [] None
        [Tag ''th'' [] None [NavigableString ''Renewable''],
         Tag ''td'' [] None [NavigableString ''Yes'']]]"
  by (simp add: plain_page_def table_rows_def find_all_def)

theorem missing_row_default_witness:
  "map header_text (table_rows plain_page) = [Some ''Renewable'']
   \<and> snd (get_stackable_info (test_env 200 listing_page plain_page)
            ''https://minecraft.wiki/w/Stick'') = 1"
proof -
  have m: "map header_text (table_rows plain_page) = [Some ''Renewable'']"
    by (simp add: plain_page_rows header_text_def find_first_def find_all_def get_text_def
          strip_def isspace_def)
  have h: "\<forall>row\<in>set (table_rows plain_page). header_text row \<noteq> Some ''Stackable''"
    by (simp add: plain_page_rows header_text_def find_first_def find_all_def get_text_def
          strip_def isspace_def)
  show ?thesis using m missing_row_default [OF stick_get detail_parse h] by blast
qed

text \<open>
  C9. On a detail page fetched with status 200, the result of \<open>get_stackable_info\<close>
  is that of the first row, through the info tables and their rows in document order,
  whose header cell reads "Stackable" and which has a value cell; a "Stackable" row
  without a value cell is passed over, and the result is 1 when there is no such row.
\<close>

theorem first_matching_row:
  assumes "http_get e item_url = Response 200 body"
    and "html_parser e body = Inr soup"
  shows "snd (get_stackable_info e item_url) =
           (case List.find stackable_row (table_rows soup) of
              None \<Rightarrow> 1
            | Some row \<Rightarrow> stack_of_row row)"
  using assms by (simp add: get_stackable_info_200)

lemma two_row_page_find:
  "List.find stackable_row (table_rows two_row_page)
     = Some (Tag ''tr'' [] None
               [Tag ''th'' [] None [NavigableString ''Stackable''],
                Tag ''td'' [] None [NavigableString ''Yes (16)'']])"
  by (simp add: page_simps)

lemma stack_of_text_16: "stack_of_text ''Yes (16)'' = 16"
  by (simp add: stack_of_text_def isdigit_def int_of_digits_def)

theorem first_matching_row_witness:
  "snd (get_stackable_info (test_env 200 listing_page two_row_page)
          ''https://minecraft.wiki/w/Stick'') = 16"
  using first_matching_row [OF stick_get [of listing_page two_row_page]
      detail_parse [of listing_page two_row_page]]
  by (simp add: two_row_page_find stack_of_row_def stackable_page_value strip_def isspace_def
        stack_of_text_16)



subsection \<open>Failures of a detail page and of the listing page\<close>

lemma get_stackable_info_fails:
  "detail_fetch_fails e item_url \<Longrightarrow> snd (get_stackable_info e item_url) = 1"
  by (auto simp: detail_fetch_fails_def get_stackable_info_def get_stackable_info_try_def
           split: http_result.splits sum.splits if_splits)

lemma main_listing_ok:
  assumes "http_get e base_url = Response 200 text" and "html_parser e text = Inr soup"
  shows "main e schedule =
           (let p = pool_run e schedule (start_pool soup)
            in if interrupted p
               then \<lparr>printed = console p @ [Interrupt_received, Progress_saved (length (items_data p))],
                     collected = items_data p, output_file = Some (items_data p),
                     ended = Interrupted\<rparr>
               else \<lparr>printed = console p @ [Progress_saved (length (items_data p)),
                                                Finished (length (items_data p))],
                     collected = items_data p, output_file = Some (items_data p),
                     ended = Done\<rparr>)"
  using assms by (simp add: main_def save_data_def Let_def)

text \<open>
  C6. When the attempt on a candidate's detail page fails (the GET raises, as on a
  timeout, the status is not 200, or the parser raises), \<open>get_stackable_info\<close> returns
  1 and the entry built has stack size 1; an exception leaving the body of the \<open>try\<close>
  is turned into the value 1, so none reaches the caller; and the attempt completes in
  the pool as any other does, its entry appended, the queue left as it was.
\<close>

theorem per_item_failure_swallowed:
  assumes "detail_fetch_fails e item_url"
  shows "snd (get_stackable_info e item_url) = 1
       \<and> snd (fetch_item_data e (item_name, item_url)) = \<lparr>item = item_name, stack = 1\<rparr>
       \<and> (\<forall>x. get_stackable_info_try e item_url = Inl x \<longrightarrow>
              get_stackable_info e item_url = ([Exception_for item_url x], 1))
       \<and> (\<forall>p i. i < length (running p) \<and> running p ! i = (item_name, item_url) \<longrightarrow>
              items_data (pool_step e p (Complete i))
                = items_data p @ [\<lparr>item = item_name, stack = 1\<rparr>]
              \<and> queue (pool_step e p (Complete i)) = queue p)"
proof -
  have a: "snd (get_stackable_info e item_url) = 1"
    using assms by (rule get_stackable_info_fails)
  have b: "snd (fetch_item_data e (item_name, item_url)) = \<lparr>item = item_name, stack = 1\<rparr>"
    using a by (auto simp: fetch_item_data_def split: prod.splits)
  have c: "\<forall>x. get_stackable_info_try e item_url = Inl x \<longrightarrow>
              get_stackable_info e item_url = ([Exception_for item_url x], 1)"
    by (simp add: get_stackable_info_def)
  have d: "\<forall>p i. i < length (running p) \<and> running p ! i = (item_name, item_url) \<longrightarrow>
              items_data (pool_step e p (Complete i))
                = items_data p @ [\<lparr>item = item_name, stack = 1\<rparr>]
              \<and> queue (pool_step e p (Complete i)) = queue p"
    using b by (auto split: prod.splits)
  show ?thesis using a b c d by blast
qed

lemma ink_sac_get:
  "http_get (test_env 200 listing detail) ''https://minecraft.wiki/w/Ink_Sac'' = Raises Timeout"
  by (simp add: test_env_def base_url_def)

theorem per_item_failure_swallowed_witness:
  "detail_fetch_fails (test_env 200 listing_page (stackable_page ''Yes (64)''))
     ''https://minecraft.wiki/w/Ink_Sac''
   \<and> snd (fetch_item_data (test_env 200 listing_page (stackable_page ''Yes (64)''))
            (''Ink Sac'', ''https://minecraft.wiki/w/Ink_Sac''))
       = \<lparr>item = ''Ink Sac'', stack = 1\<rparr>"
proof -
  have h: "detail_fetch_fails (test_env 200 listing_page (stackable_page ''Yes (64)''))
     ''https://minecraft.wiki/w/Ink_Sac''"
    by (simp add: detail_fetch_fails_def ink_sac_get)
  show ?thesis using h per_item_failure_swallowed [OF h, of "''Ink Sac''"] by blast
qed

text \<open>
  C3, as the code has it. When the GET of the listing URL returns a status other than
  200, \<open>main\<close> prints the failure line and returns at once: no candidate is attempted,
  \<open>items_data\<close> stays empty and no file is written. The failure is reported on the
  console only: the script goes on to print the time and ends with exit status 0.
\<close>

theorem listing_failure_aborts:
  assumes "http_get e base_url = Response status_code text"
    and "status_code \<noteq> 200"
  shows "main e schedule =
           \<lparr>printed = [Fetching_item_list, Listing_failed], collected = [],
            output_file = None, ended = Aborted\<rparr>
       \<and> printed (fst (script e schedule)) = [Fetching_item_list, Listing_failed, Total_time]
       \<and> snd (script e schedule) = 0"
  using assms by (simp add: main_def script_def)

lemma listing_404:
  "http_get (test_env 404 listing detail) base_url = Response 404 ''listing''"
  by (simp add: test_env_def)

theorem listing_failure_aborts_witness:
  "http_get (test_env 404 listing_page plain_page) base_url = Response 404 ''listing''
   \<and> main (test_env 404 listing_page plain_page) [Take, Complete 0] =
           \<lparr>printed = [Fetching_item_list, Listing_failed], collected = [],
            output_file = None, ended = Aborted\<rparr>"
proof -
  have n: "(404::nat) \<noteq> 200" by simp
  show ?thesis using listing_404 listing_failure_aborts [OF listing_404 n] by blast
qed

theorem listing_failure_exit_status:
  "http_get (test_env 404 listing_page plain_page) base_url = Response 404 ''listing''
   \<and> output_file (fst (script (test_env 404 listing_page plain_page) [])) = None
   \<and> snd (script (test_env 404 listing_page plain_page) []) = 0"
  by (simp add: listing_404 main_def script_def)

subsection \<open>The pool accounts for every candidate\<close>

lemma mset_map_take_drop:
  "i < length xs \<Longrightarrow>
     mset (map f (take i xs @ drop (Suc i) xs)) + {#f (xs ! i)#} = mset (map f xs)"
proof -
  assume "i < length xs"
  then have "xs = take i xs @ xs ! i # drop (Suc i) xs" by (rule id_take_nth_drop)
  then have "mset (map f xs) = mset (map f (take i xs @ xs ! i # drop (Suc i) xs))" by simp
  then show ?thesis by simp
qed

lemma fetch_item_data_entry: "fetch_item_data e c = (out, r) \<Longrightarrow> r = entry_of e c"
  by (simp add: entry_of_def)

lemma step_interrupted: "interrupted p \<Longrightarrow> interrupted (pool_step e p ev)"
  by (cases ev) (auto split: list.splits prod.splits)

lemma foldl_interrupted: "interrupted p \<Longrightarrow> interrupted (foldl (pool_step e) p evs)"
  by (induction evs arbitrary: p) (auto simp: step_interrupted)

lemma step_accounted_eq:
  "\<not> interrupted (pool_step e p ev) \<Longrightarrow> accounted e (pool_step e p ev) = accounted e p"
proof (cases ev)
  case Take
  then show ?thesis by (auto simp: accounted_def split: list.splits)
next
  case (Complete i)
  show ?thesis
  proof (cases "i < length (running p)")
    case True
    obtain out r where f: "fetch_item_data e (running p ! i) = (out, r)" by fastforce
    then have r: "r = entry_of e (running p ! i)" by (rule fetch_item_data_entry)
    have "mset (map (entry_of e) (take i (running p) @ drop (Suc i) (running p))) + {#r#}
            = mset (map (entry_of e) (running p))"
      unfolding r using True by (rule mset_map_take_drop)
    then show ?thesis using Complete True f by (simp add: accounted_def)
  next
    case False
    then show ?thesis using Complete by simp
  qed
next
  case Ctrl_C
  assume "\<not> interrupted (pool_step e p ev)"
  then show ?thesis using Ctrl_C by (auto split: if_splits)
qed


lemma foldl_accounted_eq:
  "\<not> interrupted (foldl (pool_step e) p evs) \<Longrightarrow>
     accounted e (foldl (pool_step e) p evs) = accounted e p"
proof (induction evs arbitrary: p)
  case Nil
  then show ?case by simp
next
  case (Cons ev evs)
  have ni: "\<not> interrupted (pool_step e p ev)"
    using Cons.prems foldl_interrupted by fastforce
  have "accounted e (foldl (pool_step e) (pool_step e p ev) evs) = accounted e (pool_step e p ev)"
    using Cons by simp
  then show ?case using ni by (simp add: step_accounted_eq)
qed


lemma step_not_interrupted:
  "ev \<noteq> Ctrl_C \<Longrightarrow> interrupted (pool_step e p ev) = interrupted p"
  by (cases ev) (auto split: list.splits prod.splits)

lemma drain_props:
  "drained (drain e p) \<and> interrupted (drain e p) = interrupted p
     \<and> accounted e (drain e p) = accounted e p"
proof (induction e p rule: drain.induct)
  case (1 e p)
  show ?case
  proof (cases "running p \<noteq> []")
    case True
    have d: "drain e p = drain e (pool_step e p (Complete 0))"
      using True by (subst drain.simps) simp
    have i: "interrupted (pool_step e p (Complete 0)) = interrupted p"
      by (rule step_not_interrupted) simp
    have "accounted e (pool_step e p (Complete 0)) = accounted e p"
    proof (cases "interrupted p")
      case False
      then show ?thesis using i step_accounted_eq by blast
    next
      case ip: True
      obtain out r where f: "fetch_item_data e (running p ! 0) = (out, r)" by fastforce
      then have r: "r = entry_of e (running p ! 0)" by (rule fetch_item_data_entry)
      have "mset (map (entry_of e) (take 0 (running p) @ drop (Suc 0) (running p))) + {#r#}
              = mset (map (entry_of e) (running p))"
        unfolding r using True by (intro mset_map_take_drop) simp
      then show ?thesis using True f by (simp add: accounted_def)
    qed
    then show ?thesis using "1.IH"(1) [OF True] d i by simp
  next
    case False
    show ?thesis
    proof (cases "queue p \<noteq> []")
      case q: True
      have d: "drain e p = drain e (pool_step e p Take)"
        using False q by (subst drain.simps) simp
      have i: "interrupted (pool_step e p Take) = interrupted p"
        by (rule step_not_interrupted) simp
      have "accounted e (pool_step e p Take) = accounted e p"
        using False by (auto simp: accounted_def max_workers_def split: list.splits)
      then show ?thesis using "1.IH"(2) [OF False q] d i by simp
    next
      case q: False
      have "drain e p = p" using False q by (subst drain.simps) simp
      then show ?thesis using False q by (simp add: drained_def)
    qed
  qed
qed

lemma accounted_drained: "drained p \<Longrightarrow> accounted e p = mset (items_data p)"
  by (simp add: accounted_def drained_def)

lemma accounted_start:
  "accounted e (start_pool soup) = mset (map (entry_of e) (extract_item_tuples soup))"
  by (simp add: accounted_def start_pool_def pool_init_def Let_def)


lemma pool_run_accounted_eq:
  assumes "\<not> interrupted (pool_run e schedule (start_pool soup))"
  shows "mset (items_data (pool_run e schedule (start_pool soup)))
           = mset (map (entry_of e) (extract_item_tuples soup))"
proof -
  let ?p = "foldl (pool_step e) (start_pool soup) schedule"
  have ni: "\<not> interrupted ?p" using assms drain_props by (simp add: pool_run_def)
  have "accounted e (drain e ?p) = mset (items_data (drain e ?p))"
    using drain_props by (intro accounted_drained) blast
  moreover have "accounted e (drain e ?p) = accounted e ?p" using drain_props by blast
  moreover have "accounted e ?p = accounted e (start_pool soup)"
    using ni by (rule foldl_accounted_eq)
  ultimately show ?thesis by (simp add: pool_run_def accounted_start)
qed

lemma foldl_no_interrupt:
  "Ctrl_C \<notin> set evs \<Longrightarrow> interrupted (foldl (pool_step e) p evs) = interrupted p"
proof (induction evs arbitrary: p)
  case Nil
  then show ?case by simp
next
  case (Cons ev evs)
  have "ev \<noteq> Ctrl_C" using Cons.prems by auto
  then have "interrupted (pool_step e p ev) = interrupted p" by (rule step_not_interrupted)
  moreover have "interrupted (foldl (pool_step e) (pool_step e p ev) evs)
                   = interrupted (pool_step e p ev)"
    using Cons by simp
  ultimately show ?case by simp
qed

subsection \<open>Runs that end normally\<close>





lemma size_accounted:
  "size (accounted e p) = length (items_data p) + length (running p) + length (queue p)"
  by (simp add: accounted_def)


lemma pool_run_interrupted:
  "interrupted (pool_run e schedule p) = interrupted (foldl (pool_step e) p schedule)"
  using drain_props by (simp add: pool_run_def)

text \<open>
  C1. When the listing page is fetched and parsed, a run that no interruption reaches
  ends normally, and in every run that ends normally the file written holds
  \<open>items_data\<close>, whose length is the number of candidates extracted from the listing
  page: as a multiset it is the entries of the candidates, one for each, none dropped
  and none twice.
\<close>

theorem total_accounting:
  assumes "http_get e base_url = Response 200 text"
    and "html_parser e text = Inr soup"
  shows "(Ctrl_C \<notin> set schedule \<longrightarrow> ended (main e schedule) = Done)
       \<and> (ended (main e schedule) = Done \<longrightarrow>
            output_file (main e schedule) = Some (collected (main e schedule))
          \<and> length (collected (main e schedule)) = length (extract_item_tuples soup)
          \<and> mset (collected (main e schedule))
              = mset (map (entry_of e) (extract_item_tuples soup)))"
proof -
  let ?p = "pool_run e schedule (start_pool soup)"
  note m = main_listing_ok [OF assms, of schedule]
  have a: "ended (main e schedule) = Done" if "Ctrl_C \<notin> set schedule"
  proof -
    have "interrupted (foldl (pool_step e) (start_pool soup) schedule)
            = interrupted (start_pool soup)"
      using that by (rule foldl_no_interrupt)
    then have "\<not> interrupted ?p"
      by (simp add: pool_run_interrupted start_pool_def pool_init_def Let_def)
    then show ?thesis by (simp add: m Let_def)
  qed
  have b: "output_file (main e schedule) = Some (collected (main e schedule))
          \<and> length (collected (main e schedule)) = length (extract_item_tuples soup)
          \<and> mset (collected (main e schedule))
              = mset (map (entry_of e) (extract_item_tuples soup))"
    if "ended (main e schedule) = Done"
  proof -
    have ni: "\<not> interrupted ?p" using that by (auto simp: m Let_def split: if_splits)
    then have ms: "mset (items_data ?p) = mset (map (entry_of e) (extract_item_tuples soup))"
      by (rule pool_run_accounted_eq)
    then have "size (mset (items_data ?p))
                 = size (mset (map (entry_of e) (extract_item_tuples soup)))"
      by simp
    then have "length (items_data ?p) = length (extract_item_tuples soup)" by simp
    then show ?thesis using ni ms by (simp add: m Let_def)
  qed
  show ?thesis using a b by blast
qed

lemma listing_200:
  "http_get (test_env 200 listing detail) base_url = Response 200 ''listing''"
  by (simp add: test_env_def)

lemma listing_parse: "html_parser (test_env 200 listing detail) ''listing'' = Inr listing"
  by (simp add: test_env_def)

lemma listing_page_tuples:
  "extract_item_tuples listing_page =
     [(''Stick'', ''https://minecraft.wiki/w/Stick''),
      (''Ink Sac'', ''https://minecraft.wiki/w/Ink_Sac'')]"
  by (simp add: extract_item_tuples_def listing_page_def find_all_def get_text_def strip_def
        isspace_def wiki_origin_def Let_def)

lemma stick_fetch:
  "fetch_item_data (test_env 200 listing (stackable_page text))
     (''Stick'', ''https://minecraft.wiki/w/Stick'')
     = ([], \<lparr>item = ''Stick'', stack = stack_of_text (strip text)\<rparr>)"
  by (simp add: fetch_item_data_def get_stackable_info_200 [OF stick_get detail_parse]
        stackable_page_find stack_of_row_def stackable_page_value)

lemma ink_sac_fetch:
  "fetch_item_data (test_env 200 listing detail)
     (''Ink Sac'', ''https://minecraft.wiki/w/Ink_Sac'')
     = ([Exception_for ''https://minecraft.wiki/w/Ink_Sac'' Timeout],
        \<lparr>item = ''Ink Sac'', stack = 1\<rparr>)"
  by (simp add: fetch_item_data_def get_stackable_info_def get_stackable_info_try_def
        ink_sac_get)

lemma stack_of_text_64: "stack_of_text (strip ''Yes (64)'') = 64"
  by (simp add: stack_of_text_def strip_def isspace_def isdigit_def int_of_digits_def)

lemmas run_simps = pool_run_def start_pool_def pool_init_def listing_page_tuples max_workers_def
  drained_def stick_fetch ink_sac_fetch stack_of_text_64 Let_def

lemma scenario_run:
  "pool_run (test_env 200 listing_page (stackable_page ''Yes (64)''))
     [Take, Take, Complete 1, Complete 0] (start_pool listing_page)
   = \<lparr>queue = [], running = [],
      items_data = [\<lparr>item = ''Ink Sac'', stack = 1\<rparr>, \<lparr>item = ''Stick'', stack = 64\<rparr>],
      console = [Fetching_item_list, Total_items_found 2, Fetching_in_parallel,
                 Exception_for ''https://minecraft.wiki/w/Ink_Sac'' Timeout],
      interrupted = False\<rparr>"
  by (simp add: run_simps drain.simps)

theorem total_accounting_witness:
  "ended (main (test_env 200 listing_page (stackable_page ''Yes (64)''))
            [Take, Take, Complete 1, Complete 0]) = Done
   \<and> output_file (main (test_env 200 listing_page (stackable_page ''Yes (64)''))
                    [Take, Take, Complete 1, Complete 0])
       = Some [\<lparr>item = ''Ink Sac'', stack = 1\<rparr>, \<lparr>item = ''Stick'', stack = 64\<rparr>]
   \<and> length (collected (main (test_env 200 listing_page (stackable_page ''Yes (64)''))
                           [Take, Take, Complete 1, Complete 0]))
       = length (extract_item_tuples listing_page)"
proof -
  let ?m = "main (test_env 200 listing_page (stackable_page ''Yes (64)''))
              [Take, Take, Complete 1, Complete 0]"
  have c: "Ctrl_C \<notin> set [Take, Take, Complete 1, Complete 0]" by simp
  note T = total_accounting [OF
      listing_200 [of listing_page "stackable_page ''Yes (64)''"]
      listing_parse [of listing_page "stackable_page ''Yes (64)''"],
      of "[Take, Take, Complete 1, Complete 0]"]
  have d: "ended ?m = Done" using T c by blast
  have l: "length (collected ?m) = length (extract_item_tuples listing_page)"
    and f: "output_file ?m = Some (collected ?m)"
    using T d by blast+
  have "collected ?m = [\<lparr>item = ''Ink Sac'', stack = 1\<rparr>, \<lparr>item = ''Stick'', stack = 64\<rparr>]"
    by (simp only: main_listing_ok [OF listing_200 listing_parse] scenario_run Let_def) simp
  then show ?thesis using d l f by simp
qed

subsection \<open>Interrupted runs\<close>







subsection \<open>The range of the stack size\<close>














subsection \<open>The candidates of the listing page\<close>

lemma descendants_children: "descendants_list (children d) = descendants d"
  by (cases d) simp_all

lemma region_links_inside:
  "inside \<Longrightarrow> region_links inside c = filter (is_tag_href ''a'') (c # descendants c)"
  and region_links_list_inside:
  "inside \<Longrightarrow> region_links_list inside cs = filter (is_tag_href ''a'') (descendants_list cs)"
  by (induction inside c and inside cs rule: region_links_region_links_list.induct) auto

lemma link_loop_candidates: "link_loop links = concat (map candidate_of_link links)"
proof (induction links)
  case Nil
  then show ?case by simp
next
  case (Cons link links)
  show ?case
  proof (cases link)
    case (NavigableString s)
    then show ?thesis using Cons by (simp add: get_text_def)
  next
    case (Comment s)
    then show ?thesis using Cons by (simp add: get_text_def)
  next
    case (Tag n cl h cs)
    show ?thesis
    proof (cases h)
      case None
      then show ?thesis using Cons Tag by (simp add: Let_def)
    next
      case (Some u)
      then show ?thesis using Cons Tag by (simp add: Let_def)
    qed
  qed
qed

lemma div_loop_concat:
  "div_loop ds =
     concat (map (\<lambda>d. concat (map candidate_of_link
                                (filter (is_tag_href ''a'') (descendants d)))) ds)"
  by (induction ds) (simp_all add: link_loop_candidates find_all_def descendants_children)

lemma region_links_outside:
  "\<not> inside \<Longrightarrow>
     list_all (\<lambda>d. filter (is_tag_class ''div'' ''div-col'') (descendants d) = [])
       (filter (is_tag_class ''div'' ''div-col'') (c # descendants c)) \<Longrightarrow>
     region_links inside c =
       concat (map (\<lambda>d. filter (is_tag_href ''a'') (descendants d))
                 (filter (is_tag_class ''div'' ''div-col'') (c # descendants c)))"
  and region_links_list_outside:
  "\<not> inside \<Longrightarrow>
     list_all (\<lambda>d. filter (is_tag_class ''div'' ''div-col'') (descendants d) = [])
       (filter (is_tag_class ''div'' ''div-col'') (descendants_list cs)) \<Longrightarrow>
     region_links_list inside cs =
       concat (map (\<lambda>d. filter (is_tag_href ''a'') (descendants d))
                 (filter (is_tag_class ''div'' ''div-col'') (descendants_list cs)))"
proof (induction inside c and inside cs rule: region_links_region_links_list.induct)
  case (1 inside s)
  then show ?case by simp
next
  case (2 inside s)
  then show ?case by simp
next
  case (3 inside n cl h cs)
  show ?case
  proof (cases "n = ''div'' \<and> ''div-col'' \<in> set cl")
    case True
    then have "filter (is_tag_class ''div'' ''div-col'') (descendants_list cs) = []"
      using "3.prems"(2) by simp
    then show ?thesis using True "3.prems"(1) by (simp add: region_links_list_inside)
  next
    case False
    then show ?thesis using "3.IH" "3.prems" by auto
  qed
next
  case (4 inside)
  then show ?case by simp
next
  case (5 inside c cs)
  let ?D = "is_tag_class ''div'' ''div-col''"
  let ?G = "\<lambda>d. filter ?D (descendants d) = []"
  let ?F = "\<lambda>d. filter (is_tag_href ''a'') (descendants d)"
  have sp: "filter ?D (descendants_list (c # cs))
              = filter ?D (c # descendants c) @ filter ?D (descendants_list cs)"
    by simp
  have "list_all ?G (filter ?D (c # descendants c) @ filter ?D (descendants_list cs))"
    using "5.prems"(2) unfolding sp .
  then have a: "list_all ?G (filter ?D (c # descendants c))"
    and b: "list_all ?G (filter ?D (descendants_list cs))"
    by (simp_all only: list_all_append)
  have x: "region_links inside c = concat (map ?F (filter ?D (c # descendants c)))"
    using "5.prems"(1) a by (rule "5.IH"(1))
  have y: "region_links_list inside cs = concat (map ?F (filter ?D (descendants_list cs)))"
    using "5.prems"(1) b by (rule "5.IH"(2))
  show ?case
    by (simp only: region_links.simps region_links_list.simps sp map_append concat_append x y)
qed

lemma concat_map_concat:
  "concat (map f (concat xss)) = concat (map (\<lambda>xs. concat (map f xs)) xss)"
  by (induction xss) simp_all

text \<open>
  C8, as the code has it. On a listing page in which no column-list region lies inside
  another, the candidates extracted are, in document order and with nothing sorted or
  removed as a duplicate, exactly the hyperlinks inside column-list regions whose
  visible text is not empty and is neither "JE" nor "BE", each with its \<open>href\<close>
  prefixed by the origin of the wiki.
\<close>

theorem listing_filter_and_order:
  assumes "no_nested_regions soup"
  shows "extract_item_tuples soup = listed_candidates soup"
proof -
  have "list_all (\<lambda>d. filter (is_tag_class ''div'' ''div-col'') (descendants d) = [])
          (filter (is_tag_class ''div'' ''div-col'') (descendants_list soup))"
    using assms by (simp add: no_nested_regions_def find_all_def descendants_children)
  then have "region_links_list False soup =
       concat (map (\<lambda>d. filter (is_tag_href ''a'') (descendants d))
                 (filter (is_tag_class ''div'' ''div-col'') (descendants_list soup)))"
    by (intro region_links_list_outside) simp
  then show ?thesis
    by (simp add: extract_item_tuples_def listed_candidates_def div_loop_concat find_all_def
          concat_map_concat comp_def)
qed

lemma marker_tuples:
  "extract_item_tuples marker_listing_page
     = [(''Diamond Sword'', ''https://minecraft.wiki/w/Diamond_Sword'')]"
  by (simp add: extract_item_tuples_def marker_listing_page_def find_all_def get_text_def
        strip_def isspace_def wiki_origin_def Let_def)

theorem listing_filter_and_order_witness:
  "no_nested_regions marker_listing_page
   \<and> listed_candidates marker_listing_page
       = [(''Diamond Sword'', ''https://minecraft.wiki/w/Diamond_Sword'')]"
proof -
  have h: "no_nested_regions marker_listing_page"
    by (simp add: no_nested_regions_def marker_listing_page_def find_all_def)
  show ?thesis using h listing_filter_and_order [OF h] by (simp add: marker_tuples)
qed

theorem nested_regions_repeat_links:
  "extract_item_tuples nested_listing_page
     = [(''Stick'', ''https://minecraft.wiki/w/Stick''),
        (''Stick'', ''https://minecraft.wiki/w/Stick'')]
   \<and> listed_candidates nested_listing_page = [(''Stick'', ''https://minecraft.wiki/w/Stick'')]"
  by (simp add: extract_item_tuples_def listed_candidates_def nested_listing_page_def
        find_all_def get_text_def strip_def isspace_def wiki_origin_def Let_def)

end
